theory Spec2Isabelle
  imports Main
begin

section \<open>JavaScript values and arrays\<close>

text \<open>
  The tags of \<^verbatim>\<open>sheet/Tag.js\<close> take indices of type \<^verbatim>\<open>number\<close>; the model takes them
  as integers (negative ones included). An exception that reaches the caller is a value
  of type \<open>error\<close>; the value \<^verbatim>\<open>undefined\<close> is \<open>Undefined\<close>.
\<close>

datatype error = TypeError | IndexSizeError | SyntaxError

datatype jsval = Undefined | Str string

text \<open>
  \<^verbatim>\<open>xs[i]\<close> on an array or a NodeList: the element, or \<^verbatim>\<open>undefined\<close> (here \<open>None\<close>)
  when \<open>i\<close> is not an index of \<open>xs\<close>.
\<close>

definition array_get :: "'a list \<Rightarrow> int \<Rightarrow> 'a option" where
  "array_get xs i = (if 0 \<le> i \<and> i < int (length xs) then Some (xs ! nat i) else None)"

text \<open>
  \<^verbatim>\<open>xs.splice(start, deleteCount, ...items)\<close>, as the array it leaves behind: a negative
  \<open>start\<close> counts from the end, and both the start and the number of deleted elements
  are clamped to the array.
\<close>

definition splice :: "'a list \<Rightarrow> int \<Rightarrow> int \<Rightarrow> 'a list \<Rightarrow> 'a list" where
  "splice xs start deleteCount items =
     (let len = int (length xs);
          actualStart = (if start < 0 then max (len + start) 0 else min start len);
          actualDeleteCount = min (max deleteCount 0) (len - actualStart)
      in take (nat actualStart) xs @ items @ drop (nat (actualStart + actualDeleteCount)) xs)"

section \<open>VirtualTag: the list-backed tag\<close>

record VirtualTag =
  rules :: "string list"
  length_Virtual :: int

typedecl HTMLElement

definition VirtualTag_new :: "HTMLElement option \<Rightarrow> VirtualTag" where
  "VirtualTag_new target = \<lparr>rules = [], length_Virtual = 0\<rparr>"

definition VirtualTag_insertRule :: "VirtualTag \<Rightarrow> int \<Rightarrow> string \<Rightarrow> VirtualTag \<times> bool" where
  "VirtualTag_insertRule t index rule =
     (if index \<le> length_Virtual t
      then (t\<lparr>rules := splice (rules t) index 0 [rule],
              length_Virtual := length_Virtual t + 1\<rparr>, True)
      else (t, False))"

text \<open>The \<^verbatim>\<open>for\<close> loop of \<^verbatim>\<open>insertRules\<close>, over the rules still to insert.\<close>

fun VirtualTag_insertRules_loop ::
  "VirtualTag \<Rightarrow> int \<Rightarrow> int \<Rightarrow> string list \<Rightarrow> VirtualTag \<times> int" where
  "VirtualTag_insertRules_loop t insertCount ruleIndex [] = (t, insertCount)"
| "VirtualTag_insertRules_loop t insertCount ruleIndex (r # rs) =
     (let (t', ok) = VirtualTag_insertRule t ruleIndex r
      in if ok then VirtualTag_insertRules_loop t' (insertCount + 1) (ruleIndex + 1) rs
         else VirtualTag_insertRules_loop t' insertCount ruleIndex rs)"

definition VirtualTag_insertRules ::
  "VirtualTag \<Rightarrow> int \<Rightarrow> string list \<Rightarrow> VirtualTag \<times> int" where
  "VirtualTag_insertRules t startRuleIndex rs = VirtualTag_insertRules_loop t 0 startRuleIndex rs"

definition VirtualTag_deleteRule :: "VirtualTag \<Rightarrow> int \<Rightarrow> VirtualTag" where
  "VirtualTag_deleteRule t index =
     t\<lparr>rules := splice (rules t) index 1 [], length_Virtual := length_Virtual t - 1\<rparr>"

definition VirtualTag_getRule :: "VirtualTag \<Rightarrow> int \<Rightarrow> jsval" where
  "VirtualTag_getRule t index =
     (if index < length_Virtual t
      then (case array_get (rules t) index of Some s \<Rightarrow> Str s | None \<Rightarrow> Undefined)
      else Str [])"

section \<open>TextTag: the node-backed tag\<close>

text \<open>
  The style element's children are text nodes, one per rule. \<open>nodes\<close> is the live
  \<^verbatim>\<open>childNodes\<close> list of the element, each node given by its text content, in document
  order. A node is named by its position among its siblings: \<open>item ns i\<close> is \<^verbatim>\<open>ns[i]\<close>,
  the position of the node at index \<open>i\<close>, or \<open>None\<close> for \<^verbatim>\<open>undefined\<close>.

  Modelled from the spec: \<^verbatim>\<open>makeStyleTag\<close> of \<^verbatim>\<open>./dom\<close> is not among the sources; the
  spec's container provisioning returns a usable container element, taken here to be a
  new style element without child nodes.
\<close>

record TextTag =
  nodes :: "string list"
  length_Text :: int

definition item :: "'a list \<Rightarrow> int \<Rightarrow> nat option" where
  "item ns i = (if 0 \<le> i \<and> i < int (length ns) then Some (nat i) else None)"

text \<open>
  \<^verbatim>\<open>parent.insertBefore(new, ref)\<close> on the children of \<open>parent\<close>: the new nodes (one node,
  or the children of a document fragment) go before the node \<open>ref\<close>, or at the end when
  \<open>ref\<close> is \<^verbatim>\<open>null\<close>; \<^verbatim>\<open>undefined\<close> is converted to \<^verbatim>\<open>null\<close>.
\<close>

definition insertBefore :: "'a list \<Rightarrow> 'a list \<Rightarrow> nat option \<Rightarrow> 'a list" where
  "insertBefore children new refNode =
     (case refNode of
        None \<Rightarrow> children @ new
      | Some k \<Rightarrow> take k children @ new @ drop k children)"

definition removeChild :: "'a list \<Rightarrow> nat \<Rightarrow> 'a list" where
  "removeChild children k = take k children @ drop (Suc k) children"

definition TextTag_new :: "HTMLElement option \<Rightarrow> TextTag" where
  "TextTag_new target = \<lparr>nodes = [], length_Text = 0\<rparr>"

definition TextTag_insertRule :: "TextTag \<Rightarrow> int \<Rightarrow> string \<Rightarrow> TextTag \<times> bool" where
  "TextTag_insertRule t index rule =
     (if index \<le> length_Text t \<and> index \<ge> 0
      then (let node = [rule];
                refNode = item (nodes t) index
            in (t\<lparr>nodes := insertBefore (nodes t) node refNode,
                   length_Text := length_Text t + 1\<rparr>, True))
      else (t, False))"

text \<open>
  The loop of \<^verbatim>\<open>insertRules\<close> that fills the detached fragment: \<open>fragmentNodes\<close> is the
  fragment's live child list, \<open>i\<close> the loop counter.
\<close>

fun TextTag_fragment_loop :: "string list \<Rightarrow> int \<Rightarrow> string list \<Rightarrow> string list" where
  "TextTag_fragment_loop fragmentNodes i [] = fragmentNodes"
| "TextTag_fragment_loop fragmentNodes i (r # rs) =
     (let node = [r];
          refNode = item fragmentNodes i
      in TextTag_fragment_loop (insertBefore fragmentNodes node refNode) (i + 1) rs)"

definition TextTag_insertRules :: "TextTag \<Rightarrow> int \<Rightarrow> string list \<Rightarrow> TextTag \<times> int" where
  "TextTag_insertRules t startRuleIndex rs =
     (let fragmentNodes = TextTag_fragment_loop [] 0 rs;
          elementRefNode = item (nodes t) startRuleIndex;
          insertCount = int (length fragmentNodes)
      in (t\<lparr>nodes := insertBefore (nodes t) fragmentNodes elementRefNode,
             length_Text := length_Text t + insertCount\<rparr>, insertCount))"

text \<open>
  \<^verbatim>\<open>removeChild(undefined)\<close> and \<^verbatim>\<open>undefined.textContent\<close> throw a TypeError, which
  nothing in the tag catches: the call ends there, before the length is touched.
\<close>

definition TextTag_deleteRule :: "TextTag \<Rightarrow> int \<Rightarrow> error + TextTag" where
  "TextTag_deleteRule t index =
     (case item (nodes t) index of
        None \<Rightarrow> Inl TypeError
      | Some k \<Rightarrow> Inr (t\<lparr>nodes := removeChild (nodes t) k, length_Text := length_Text t - 1\<rparr>))"

definition TextTag_getRule :: "TextTag \<Rightarrow> int \<Rightarrow> error + string" where
  "TextTag_getRule t index =
     (if index < length_Text t
      then (case item (nodes t) index of
              None \<Rightarrow> Inl TypeError
            | Some k \<Rightarrow> Inr (nodes t ! k))
      else Inr [])"

section \<open>CSSOMTag: the engine-backed tag\<close>

text \<open>
  Modelled from the spec: the native rule engine (the \<^verbatim>\<open>CSSStyleSheet\<close> that \<^verbatim>\<open>getSheet\<close>
  of \<^verbatim>\<open>./dom\<close> returns) is not among the sources. Its parser is a parameter
  \<open>parse\<close>: \<open>parse rule\<close> is the rule object the engine builds, or \<open>None\<close> when it
  rejects the text. A rule object has a \<^verbatim>\<open>cssText\<close>, a string or (the quirk the source
  guards against) not a string. The engine's index-based insert and delete primitives
  throw outside the index range of the sheet and change the sheet by one rule
  otherwise. The empty text node that the constructor appends to the style element
  adds no rule: a new sheet is empty.
\<close>

datatype CSSRule = CSSRule (cssText: jsval)

type_synonym engine = "string \<Rightarrow> CSSRule option"

record CSSStyleSheet =
  cssRules :: "CSSRule list"

definition sheet_insertRule ::
  "engine \<Rightarrow> CSSStyleSheet \<Rightarrow> string \<Rightarrow> int \<Rightarrow> error + CSSStyleSheet" where
  "sheet_insertRule parse s rule index =
     (if index < 0 \<or> int (length (cssRules s)) < index then Inl IndexSizeError
      else (case parse rule of
              None \<Rightarrow> Inl SyntaxError
            | Some r \<Rightarrow>
                Inr (s\<lparr>cssRules := take (nat index) (cssRules s) @ [r] @ drop (nat index) (cssRules s)\<rparr>)))"

definition sheet_deleteRule :: "CSSStyleSheet \<Rightarrow> int \<Rightarrow> error + CSSStyleSheet" where
  "sheet_deleteRule s index =
     (if index < 0 \<or> int (length (cssRules s)) \<le> index then Inl IndexSizeError
      else Inr (s\<lparr>cssRules := take (nat index) (cssRules s) @ drop (Suc (nat index)) (cssRules s)\<rparr>))"

record CSSOMTag =
  sheet :: CSSStyleSheet
  length_CSSOM :: int

definition CSSOMTag_new :: "HTMLElement option \<Rightarrow> CSSOMTag" where
  "CSSOMTag_new target = \<lparr>sheet = \<lparr>cssRules = []\<rparr>, length_CSSOM = 0\<rparr>"

text \<open>The \<^verbatim>\<open>try\<close> block: whatever the engine throws becomes the result false.\<close>

definition CSSOMTag_insertRule ::
  "engine \<Rightarrow> CSSOMTag \<Rightarrow> int \<Rightarrow> string \<Rightarrow> CSSOMTag \<times> bool" where
  "CSSOMTag_insertRule parse t index rule =
     (case sheet_insertRule parse (sheet t) rule index of
        Inr s \<Rightarrow> (t\<lparr>sheet := s, length_CSSOM := length_CSSOM t + 1\<rparr>, True)
      | Inl _ \<Rightarrow> (t, False))"

fun CSSOMTag_insertRules_loop ::
  "engine \<Rightarrow> CSSOMTag \<Rightarrow> int \<Rightarrow> int \<Rightarrow> string list \<Rightarrow> CSSOMTag \<times> int" where
  "CSSOMTag_insertRules_loop parse t insertCount ruleIndex [] = (t, insertCount)"
| "CSSOMTag_insertRules_loop parse t insertCount ruleIndex (r # rs) =
     (let (t', ok) = CSSOMTag_insertRule parse t ruleIndex r
      in if ok then CSSOMTag_insertRules_loop parse t' (insertCount + 1) (ruleIndex + 1) rs
         else CSSOMTag_insertRules_loop parse t' insertCount ruleIndex rs)"

definition CSSOMTag_insertRules ::
  "engine \<Rightarrow> CSSOMTag \<Rightarrow> int \<Rightarrow> string list \<Rightarrow> CSSOMTag \<times> int" where
  "CSSOMTag_insertRules parse t startRuleIndex rs =
     CSSOMTag_insertRules_loop parse t 0 startRuleIndex rs"

definition CSSOMTag_deleteRule :: "CSSOMTag \<Rightarrow> int \<Rightarrow> error + CSSOMTag" where
  "CSSOMTag_deleteRule t index =
     (case sheet_deleteRule (sheet t) index of
        Inl e \<Rightarrow> Inl e
      | Inr s \<Rightarrow> Inr (t\<lparr>sheet := s, length_CSSOM := length_CSSOM t - 1\<rparr>))"

definition CSSOMTag_getRule :: "CSSOMTag \<Rightarrow> int \<Rightarrow> string" where
  "CSSOMTag_getRule t index =
     (case array_get (cssRules (sheet t)) index of
        None \<Rightarrow> []
      | Some rule \<Rightarrow> (case cssText rule of Str text \<Rightarrow> text | Undefined \<Rightarrow> []))"

section \<open>makeTag and the Tag interface\<close>

datatype Tag = CSSOM CSSOMTag | Text TextTag | Virtual VirtualTag

record SheetOptions =
  isServer :: bool
  useCSSOMInjection :: bool
  target :: "HTMLElement option"

definition makeTag :: "SheetOptions \<Rightarrow> Tag" where
  "makeTag opts =
     (if isServer opts then Virtual (VirtualTag_new (target opts))
      else if useCSSOMInjection opts then CSSOM (CSSOMTag_new (target opts))
      else Text (TextTag_new (target opts)))"

text \<open>
  A call through the interface \<^verbatim>\<open>Tag\<close> runs the method of the object's class. The
  result of \<^verbatim>\<open>getRule\<close> is the value returned, or the exception thrown.
\<close>

fun Tag_length :: "Tag \<Rightarrow> int" where
  "Tag_length (CSSOM t) = length_CSSOM t"
| "Tag_length (Text t) = length_Text t"
| "Tag_length (Virtual t) = length_Virtual t"

fun Tag_insertRule :: "engine \<Rightarrow> Tag \<Rightarrow> int \<Rightarrow> string \<Rightarrow> Tag \<times> bool" where
  "Tag_insertRule parse (CSSOM t) index rule = map_prod CSSOM id (CSSOMTag_insertRule parse t index rule)"
| "Tag_insertRule parse (Text t) index rule = map_prod Text id (TextTag_insertRule t index rule)"
| "Tag_insertRule parse (Virtual t) index rule = map_prod Virtual id (VirtualTag_insertRule t index rule)"

fun Tag_insertRules :: "engine \<Rightarrow> Tag \<Rightarrow> int \<Rightarrow> string list \<Rightarrow> Tag \<times> int" where
  "Tag_insertRules parse (CSSOM t) s rs = map_prod CSSOM id (CSSOMTag_insertRules parse t s rs)"
| "Tag_insertRules parse (Text t) s rs = map_prod Text id (TextTag_insertRules t s rs)"
| "Tag_insertRules parse (Virtual t) s rs = map_prod Virtual id (VirtualTag_insertRules t s rs)"

fun Tag_deleteRule :: "Tag \<Rightarrow> int \<Rightarrow> error + Tag" where
  "Tag_deleteRule (CSSOM t) index = map_sum id CSSOM (CSSOMTag_deleteRule t index)"
| "Tag_deleteRule (Text t) index = map_sum id Text (TextTag_deleteRule t index)"
| "Tag_deleteRule (Virtual t) index = Inr (Virtual (VirtualTag_deleteRule t index))"

fun Tag_getRule :: "Tag \<Rightarrow> int \<Rightarrow> error + jsval" where
  "Tag_getRule (CSSOM t) index = Inr (Str (CSSOMTag_getRule t index))"
| "Tag_getRule (Text t) index = map_sum id Str (TextTag_getRule t index)"
| "Tag_getRule (Virtual t) index = Inr (VirtualTag_getRule t index)"

text \<open>
  The physical store of a tag, as the texts it holds in index order: the array of the
  list-backed tag, the text nodes of the node-backed tag, and the readable text of the
  engine's rule objects (empty where \<^verbatim>\<open>cssText\<close> is not a string).
\<close>

definition rule_text :: "CSSRule \<Rightarrow> string" where
  "rule_text rule = (case cssText rule of Str text \<Rightarrow> text | Undefined \<Rightarrow> [])"

fun Tag_store :: "Tag \<Rightarrow> string list" where
  "Tag_store (CSSOM t) = map rule_text (cssRules (sheet t))"
| "Tag_store (Text t) = nodes t"
| "Tag_store (Virtual t) = rules t"

section \<open>Sequences of calls\<close>

text \<open>
  The specification compares \<^verbatim>\<open>insertRules(s, rs)\<close> with \<^verbatim>\<open>rs.length\<close> sequential calls
  of \<^verbatim>\<open>insertRule\<close>, the first at \<open>s\<close> and each later one at the next higher index.
  These two functions follow those words, one for each tag the comparison is made for.
\<close>

fun VirtualTag_sequential_insertRule :: "VirtualTag \<Rightarrow> int \<Rightarrow> string list \<Rightarrow> VirtualTag" where
  "VirtualTag_sequential_insertRule t s [] = t"
| "VirtualTag_sequential_insertRule t s (r # rs) =
     VirtualTag_sequential_insertRule (fst (VirtualTag_insertRule t s r)) (s + 1) rs"

fun TextTag_sequential_insertRule :: "TextTag \<Rightarrow> int \<Rightarrow> string list \<Rightarrow> TextTag" where
  "TextTag_sequential_insertRule t s [] = t"
| "TextTag_sequential_insertRule t s (r # rs) =
     TextTag_sequential_insertRule (fst (TextTag_insertRule t s r)) (s + 1) rs"

text \<open>
  A caller of a tag issues the four operations of the interface, one after another. A
  \<open>tally\<close> is the tag together with what the caller has seen so far: the number of
  inserts reported as successful (a batch counts with the number it returns) and the
  number of deletes that were carried out. A call that throws leaves the tag as it was.
\<close>

datatype call =
  InsertRule int string
| InsertRules int "string list"
| DeleteRule int
| GetRule int

record tally =
  current :: Tag
  inserted :: int
  deleted :: int

fun perform :: "engine \<Rightarrow> tally \<Rightarrow> call \<Rightarrow> tally" where
  "perform parse st (InsertRule index rule) =
     (let (t, ok) = Tag_insertRule parse (current st) index rule
      in st\<lparr>current := t, inserted := inserted st + (if ok then 1 else 0)\<rparr>)"
| "perform parse st (InsertRules startIndex rs) =
     (let (t, insertedCount) = Tag_insertRules parse (current st) startIndex rs
      in st\<lparr>current := t, inserted := inserted st + insertedCount\<rparr>)"
| "perform parse st (DeleteRule index) =
     (case Tag_deleteRule (current st) index of
        Inr t \<Rightarrow> st\<lparr>current := t, deleted := deleted st + 1\<rparr>
      | Inl e \<Rightarrow> st)"
| "perform parse st (GetRule index) = st"

text \<open>
  The precondition of \<^verbatim>\<open>deleteRule\<close>, along a sequence of calls: every delete is issued
  at an index from 0 up to, and not including, the length the tag has at that moment.
\<close>

fun deletes_in_range :: "engine \<Rightarrow> tally \<Rightarrow> call list \<Rightarrow> bool" where
  "deletes_in_range parse st [] = True"
| "deletes_in_range parse st (c # cs) =
     ((case c of DeleteRule index \<Rightarrow> 0 \<le> index \<and> index < Tag_length (current st) | _ \<Rightarrow> True)
      \<and> deletes_in_range parse (perform parse st c) cs)"

text \<open>The number of calls of \<^verbatim>\<open>deleteRule\<close> that a sequence of calls holds.\<close>

fun deletes_issued :: "call list \<Rightarrow> int" where
  "deletes_issued [] = 0"
| "deletes_issued (c # cs) = (case c of DeleteRule index \<Rightarrow> 1 | _ \<Rightarrow> 0) + deletes_issued cs"

definition fresh :: "SheetOptions \<Rightarrow> tally" where
  "fresh opts = \<lparr>current = makeTag opts, inserted = 0, deleted = 0\<rparr>"

definition in_step :: "tally \<Rightarrow> bool" where
  "in_step st \<longleftrightarrow>
     Tag_length (current st) = inserted st - deleted st
     \<and> Tag_length (current st) = int (length (Tag_store (current st)))"

text \<open>
  An engine to run the engine-backed tag on: it rejects one text, gives one rule a
  serialised text that differs from the text inserted, as engines do when they
  normalise a rule, and gives every other rule back as it was written.
\<close>

definition example_engine :: engine where
  "example_engine rule =
     (if rule = ''not valid css'' then None
      else if rule = ''a{color:red}'' then Some (CSSRule (Str ''a { color: red; }''))
      else Some (CSSRule (Str rule)))"

section \<open>Facts about the list operations\<close>

lemma length_splice_insert: "length (splice xs i 0 [x]) = Suc (length xs)"
  by (auto simp add: splice_def Let_def min_def max_def)

lemma length_splice_delete:
  "0 \<le> i \<Longrightarrow> i < int (length xs) \<Longrightarrow> Suc (length (splice xs i 1 [])) = length xs"
  by (auto simp add: splice_def Let_def min_def max_def)

lemma splice_delete_beyond: "int (length xs) \<le> start \<Longrightarrow> splice xs start 1 [] = xs"
  by (simp add: splice_def Let_def min_def)

lemma splice_insert_in_range:
  "0 \<le> i \<Longrightarrow> i \<le> int (length xs) \<Longrightarrow>
   splice xs i 0 [x] = take (nat i) xs @ [x] @ drop (nat i) xs"
  by (simp add: splice_def Let_def min_def)

lemma insertBefore_in_range:
  "0 \<le> i \<Longrightarrow> i \<le> int (length xs) \<Longrightarrow>
   insertBefore xs [x] (item xs i) = take (nat i) xs @ [x] @ drop (nat i) xs"
  by (auto simp add: insertBefore_def item_def)

lemma length_insertBefore: "length (insertBefore xs new ref) = length xs + length new"
  by (auto simp add: insertBefore_def split: option.split)

lemma nth_insert_at:
  "k \<le> length xs \<Longrightarrow> (take k xs @ [x] @ drop k xs) ! k = x"
  by (simp add: nth_append)

lemma nth_insert_after:
  "k < j \<Longrightarrow> j < length xs \<Longrightarrow> (take k xs @ [x] @ drop k xs) ! Suc j = xs ! j"
  by (simp add: nth_append min_def less_imp_le_nat Suc_diff_le)

text \<open>The detached fragment holds the rules of the batch, in the order given.\<close>

lemma fragment_loop_append:
  "TextTag_fragment_loop fs (int (length fs)) rs = fs @ rs"
proof (induction rs arbitrary: fs)
  case Nil
  show ?case by simp
next
  case (Cons r rs)
  have "TextTag_fragment_loop (fs @ [r]) (int (length (fs @ [r]))) rs = (fs @ [r]) @ rs"
    by (rule Cons.IH)
  then show ?case
    by (simp add: item_def insertBefore_def add.commute)
qed

lemma fragment_loop_Nil: "TextTag_fragment_loop [] 0 rs = rs"
  using fragment_loop_append [of "[]" rs] by simp

section \<open>The list-backed scenario\<close>

text \<open>
  C7. On a fresh list-backed tag: \<^verbatim>\<open>insertRule(0, "a{color:red}")\<close> returns true, the
  length is 1 and \<^verbatim>\<open>getRule(0)\<close> is the rule; \<^verbatim>\<open>insertRule(5, "b{}")\<close> returns false
  and leaves the tag as it is; \<^verbatim>\<open>insertRules(1, ["c{}", "d{}"])\<close> returns 2, the length is 3
  and the two rules are read back at 1 and 2; \<^verbatim>\<open>deleteRule(0)\<close> leaves the length 2 and
  \<^verbatim>\<open>c{}\<close> at 0.
\<close>

theorem VirtualTag_scenario:
  "(let t0 = VirtualTag_new None;
        (t1, ok1) = VirtualTag_insertRule t0 0 ''a{color:red}'';
        (t2, ok2) = VirtualTag_insertRule t1 5 ''b{}'';
        (t3, n3) = VirtualTag_insertRules t2 1 [''c{}'', ''d{}''];
        t4 = VirtualTag_deleteRule t3 0
    in length_Virtual t0 = 0
       \<and> ok1 \<and> length_Virtual t1 = 1 \<and> VirtualTag_getRule t1 0 = Str ''a{color:red}''
       \<and> \<not> ok2 \<and> t2 = t1
       \<and> n3 = 2 \<and> length_Virtual t3 = 3
       \<and> VirtualTag_getRule t3 1 = Str ''c{}'' \<and> VirtualTag_getRule t3 2 = Str ''d{}''
       \<and> length_Virtual t4 = 2 \<and> VirtualTag_getRule t4 0 = Str ''c{}'')"
  by (simp add: VirtualTag_new_def VirtualTag_insertRule_def VirtualTag_insertRules_def
      VirtualTag_deleteRule_def VirtualTag_getRule_def splice_def array_get_def Let_def)

section \<open>Negative indices\<close>

text \<open>
  The node-backed \<^verbatim>\<open>insertRule\<close> checks both bounds of the index, and the engine rejects
  an index outside its sheet: both return false and leave the tag as it was.
\<close>

lemma TextTag_insertRule_out_of_range:
  "index < 0 \<or> length_Text t < index \<Longrightarrow> TextTag_insertRule t index rule = (t, False)"
  by (auto simp add: TextTag_insertRule_def)

lemma CSSOMTag_insertRule_rejected:
  "parse r = None \<or> k < 0 \<or> int (length (cssRules (sheet t))) < k \<Longrightarrow>
   CSSOMTag_insertRule parse t k r = (t, False)"
  by (auto simp add: CSSOMTag_insertRule_def sheet_insertRule_def split: option.split)

text \<open>
  C1. The list-backed \<^verbatim>\<open>insertRule\<close> checks the upper bound of the index only. At the
  index \<open>-1\<close> it returns true and changes the tag: on a fresh tag the rule is stored and
  the length becomes 1; on a tag of two rules the new rule goes before the last one.
  The specification has it return false there, with no mutation.
\<close>

theorem VirtualTag_insertRule_negative_index:
  "VirtualTag_insertRule (VirtualTag_new None) (- 1) ''a{}''
     = (\<lparr>rules = [''a{}''], length_Virtual = 1\<rparr>, True)
   \<and> VirtualTag_insertRule \<lparr>rules = [''a{}'', ''b{}''], length_Virtual = 2\<rparr> (- 1) ''c{}''
     = (\<lparr>rules = [''a{}'', ''c{}'', ''b{}''], length_Virtual = 3\<rparr>, True)"
  by (simp add: VirtualTag_new_def VirtualTag_insertRule_def splice_def)

text \<open>
  C4. \<^verbatim>\<open>getRule\<close> of the node-backed and of the list-backed tag compares the index with
  the length only. At the index \<open>-1\<close> the node-backed tag reads the text of a node that
  does not exist, which throws a TypeError, and the list-backed tag returns
  \<^verbatim>\<open>undefined\<close>; the engine-backed tag returns the empty string. The specification has
  all three return the empty string.
\<close>

theorem getRule_negative_index:
  "TextTag_getRule (TextTag_new None) (- 1) = Inl TypeError
   \<and> VirtualTag_getRule (VirtualTag_new None) (- 1) = Undefined
   \<and> CSSOMTag_getRule (CSSOMTag_new None) (- 1) = []"
  by (simp add: TextTag_new_def TextTag_getRule_def item_def VirtualTag_new_def
      VirtualTag_getRule_def CSSOMTag_new_def CSSOMTag_getRule_def array_get_def)

section \<open>Deleting beyond the length\<close>

text \<open>
  C10. On a list-backed tag whose length is the size of its array, \<^verbatim>\<open>deleteRule\<close> at an
  index at or beyond the length removes nothing, and still takes one off the length:
  the array is unchanged, the length is one less and no longer the size of the array,
  and a length of 0 becomes negative.
\<close>

theorem VirtualTag_deleteRule_beyond_length:
  assumes "length_Virtual t = int (length (rules t))" and "length_Virtual t \<le> index"
  shows "rules (VirtualTag_deleteRule t index) = rules t
     \<and> length_Virtual (VirtualTag_deleteRule t index) = length_Virtual t - 1
     \<and> length_Virtual (VirtualTag_deleteRule t index)
         \<noteq> int (length (rules (VirtualTag_deleteRule t index)))
     \<and> (length_Virtual t = 0 \<longrightarrow> length_Virtual (VirtualTag_deleteRule t index) < 0)"
  using assms by (simp add: VirtualTag_deleteRule_def splice_delete_beyond)

theorem VirtualTag_deleteRule_beyond_length_witness:
  "VirtualTag_deleteRule \<lparr>rules = [''a{}''], length_Virtual = 1\<rparr> 1
     = \<lparr>rules = [''a{}''], length_Virtual = 0\<rparr>
   \<and> rules (VirtualTag_deleteRule (VirtualTag_new None) 0) = []
   \<and> length_Virtual (VirtualTag_deleteRule (VirtualTag_new None) 0) < 0"
proof -
  let ?t = "\<lparr>rules = [''a{}''], length_Virtual = 1\<rparr>"
  have "length_Virtual ?t = int (length (rules ?t))" and "length_Virtual ?t \<le> 1"
    by simp_all
  from VirtualTag_deleteRule_beyond_length [OF this]
  have one: "VirtualTag_deleteRule ?t 1 = \<lparr>rules = [''a{}''], length_Virtual = 0\<rparr>"
    by (simp add: VirtualTag_deleteRule_def)
  let ?e = "VirtualTag_new None"
  have "length_Virtual ?e = int (length (rules ?e))" and "length_Virtual ?e \<le> 0"
    by (simp_all add: VirtualTag_new_def)
  from VirtualTag_deleteRule_beyond_length [OF this]
  have "rules (VirtualTag_deleteRule ?e 0) = [] \<and> length_Virtual (VirtualTag_deleteRule ?e 0) < 0"
    by (simp add: VirtualTag_new_def)
  with one show ?thesis by simp
qed

section \<open>Batches on the node-backed and the list-backed tag\<close>

text \<open>
  C9. \<^verbatim>\<open>insertRules\<close> of the node-backed tag does not check the start index. On a tag
  whose length is the number of its nodes, a start index below 0 or above the length
  names no node, so the whole batch is attached at the end of the node list, the length
  grows by the size of the batch, and that size is returned.
\<close>

theorem TextTag_insertRules_unchecked:
  assumes "length_Text t = int (length (nodes t))" and "s < 0 \<or> length_Text t < s"
  shows "TextTag_insertRules t s rs =
    (t\<lparr>nodes := nodes t @ rs, length_Text := length_Text t + int (length rs)\<rparr>, int (length rs))"
  using assms
  by (auto simp add: TextTag_insertRules_def fragment_loop_Nil item_def insertBefore_def Let_def)

theorem TextTag_insertRules_unchecked_witness:
  "TextTag_insertRules \<lparr>nodes = [''a{}''], length_Text = 1\<rparr> 5 [''b{}'', ''c{}'']
     = (\<lparr>nodes = [''a{}'', ''b{}'', ''c{}''], length_Text = 3\<rparr>, 2)
   \<and> TextTag_insertRules \<lparr>nodes = [''a{}''], length_Text = 1\<rparr> (- 3) [''b{}'']
     = (\<lparr>nodes = [''a{}'', ''b{}''], length_Text = 2\<rparr>, 1)"
proof -
  let ?t = "\<lparr>nodes = [''a{}''], length_Text = 1\<rparr>"
  have inv: "length_Text ?t = int (length (nodes ?t))" by simp
  have above: "(5::int) < 0 \<or> length_Text ?t < 5"
    and below: "(- 3::int) < 0 \<or> length_Text ?t < - 3"
    by simp_all
  from TextTag_insertRules_unchecked [OF inv above, of "[''b{}'', ''c{}'']"]
    TextTag_insertRules_unchecked [OF inv below, of "[''b{}'']"]
  show ?thesis by simp
qed

lemma VirtualTag_loop_in_range:
  "s \<le> length_Virtual t \<Longrightarrow>
   VirtualTag_insertRules_loop t n s rs =
     (VirtualTag_sequential_insertRule t s rs, n + int (length rs))"
proof (induction rs arbitrary: t n s)
  case Nil
  show ?case by simp
next
  case (Cons r rs)
  let ?t' = "t\<lparr>rules := splice (rules t) s 0 [r], length_Virtual := length_Virtual t + 1\<rparr>"
  have step: "VirtualTag_insertRule t s r = (?t', True)"
    using Cons.prems by (simp add: VirtualTag_insertRule_def)
  have "s + 1 \<le> length_Virtual ?t'" using Cons.prems by simp
  from Cons.IH [OF this, of "n + 1"] step show ?case by simp
qed

lemma TextTag_sequential_in_range:
  "0 \<le> s \<Longrightarrow> s \<le> length_Text t \<Longrightarrow>
   TextTag_sequential_insertRule t s rs =
     t\<lparr>nodes := insertBefore (nodes t) rs (item (nodes t) s),
       length_Text := length_Text t + int (length rs)\<rparr>"
proof (induction rs arbitrary: t s)
  case Nil
  show ?case by (simp add: insertBefore_def split: option.split)
next
  case (Cons r rs)
  let ?ns = "insertBefore (nodes t) [r] (item (nodes t) s)"
  let ?t' = "t\<lparr>nodes := ?ns, length_Text := length_Text t + 1\<rparr>"
  have step: "TextTag_insertRule t s r = (?t', True)"
    using Cons.prems by (simp add: TextTag_insertRule_def)
  have ns: "insertBefore ?ns rs (item ?ns (s + 1)) = insertBefore (nodes t) (r # rs) (item (nodes t) s)"
  proof (cases "s < int (length (nodes t))")
    case True
    with Cons.prems have "nat s < length (nodes t)" "nat (s + 1) = Suc (nat s)" by auto
    with True Cons.prems show ?thesis
      by (simp add: item_def insertBefore_def min_def)
  next
    case False
    with Cons.prems show ?thesis
      by (simp add: item_def insertBefore_def)
  qed
  have "0 \<le> s + 1" "s + 1 \<le> length_Text ?t'" using Cons.prems by simp_all
  from Cons.IH [OF this] step ns show ?case by simp
qed

text \<open>
  C2, as amended. For the list-backed and for the node-backed tag, for every start index
  \<open>s\<close> with \<open>0 \<le> s \<le> length\<close> and every list of rules \<open>rs\<close>, \<^verbatim>\<open>insertRules(s, rs)\<close>
  returns the number of rules in \<open>rs\<close> and leaves the tag in the state that sequential
  calls of \<^verbatim>\<open>insertRule\<close> at \<open>s\<close>, \<open>s + 1\<close>, ... leave it in.
\<close>

theorem insertRules_sequential_in_range:
  "(0 \<le> s \<and> s \<le> length_Virtual v \<longrightarrow>
      VirtualTag_insertRules v s rs = (VirtualTag_sequential_insertRule v s rs, int (length rs)))
   \<and> (0 \<le> s \<and> s \<le> length_Text t \<longrightarrow>
      TextTag_insertRules t s rs = (TextTag_sequential_insertRule t s rs, int (length rs)))"
  by (simp add: VirtualTag_insertRules_def VirtualTag_loop_in_range
      TextTag_insertRules_def TextTag_sequential_in_range fragment_loop_Nil Let_def)

theorem insertRules_sequential_in_range_witness:
  "VirtualTag_insertRules \<lparr>rules = [''a{}''], length_Virtual = 1\<rparr> 1 [''b{}'', ''c{}'']
     = (\<lparr>rules = [''a{}'', ''b{}'', ''c{}''], length_Virtual = 3\<rparr>, 2)
   \<and> TextTag_insertRules \<lparr>nodes = [''a{}'', ''z{}''], length_Text = 2\<rparr> 1 [''b{}'', ''c{}'']
     = (\<lparr>nodes = [''a{}'', ''b{}'', ''c{}'', ''z{}''], length_Text = 4\<rparr>, 2)"
  using insertRules_sequential_in_range
    [of 1 "\<lparr>rules = [''a{}''], length_Virtual = 1\<rparr>" "[''b{}'', ''c{}'']"
      "\<lparr>nodes = [''a{}'', ''z{}''], length_Text = 2\<rparr>"]
  by (simp add: VirtualTag_insertRule_def TextTag_insertRule_def splice_def item_def
      insertBefore_def Let_def)

text \<open>
  C2 as it is written fails outside that range. On a fresh list-backed tag,
  \<^verbatim>\<open>insertRules(1, ["a{}"])\<close> returns 0, not 1: every rule goes through the bound check
  of \<^verbatim>\<open>insertRule\<close>. On a fresh node-backed tag, \<^verbatim>\<open>insertRules(1, ["a{}"])\<close> attaches the
  rule, where the sequential \<^verbatim>\<open>insertRule(1, "a{}")\<close> refuses it.
\<close>

theorem insertRules_sequential_counterexample:
  "snd (VirtualTag_insertRules (VirtualTag_new None) 1 [''a{}'']) \<noteq> int (length [''a{}''])
   \<and> fst (TextTag_insertRules (TextTag_new None) 1 [''a{}''])
       \<noteq> TextTag_sequential_insertRule (TextTag_new None) 1 [''a{}'']"
  by (simp add: VirtualTag_insertRules_def VirtualTag_insertRule_def VirtualTag_new_def
      TextTag_insertRules_def TextTag_insertRule_def TextTag_new_def item_def insertBefore_def
      Let_def)

section \<open>The choice of the backend\<close>

text \<open>
  C8. \<^verbatim>\<open>makeTag\<close> builds one tag, by fixed priority: the list-backed tag when
  \<^verbatim>\<open>isServer\<close> is set; otherwise the engine-backed tag when \<^verbatim>\<open>useCSSOMInjection\<close> is
  set; otherwise the node-backed tag. The tag it builds is empty.
\<close>

theorem makeTag_priority:
  "(isServer opts \<longrightarrow> makeTag opts = Virtual (VirtualTag_new (target opts)))
   \<and> (\<not> isServer opts \<and> useCSSOMInjection opts \<longrightarrow>
        makeTag opts = CSSOM (CSSOMTag_new (target opts)))
   \<and> (\<not> isServer opts \<and> \<not> useCSSOMInjection opts \<longrightarrow>
        makeTag opts = Text (TextTag_new (target opts)))
   \<and> Tag_length (makeTag opts) = 0 \<and> Tag_store (makeTag opts) = []"
  by (simp add: makeTag_def VirtualTag_new_def CSSOMTag_new_def TextTag_new_def)

theorem makeTag_priority_witness:
  "makeTag \<lparr>isServer = True, useCSSOMInjection = True, target = None\<rparr> = Virtual (VirtualTag_new None)
   \<and> makeTag \<lparr>isServer = True, useCSSOMInjection = False, target = None\<rparr> = Virtual (VirtualTag_new None)
   \<and> makeTag \<lparr>isServer = False, useCSSOMInjection = True, target = None\<rparr> = CSSOM (CSSOMTag_new None)
   \<and> makeTag \<lparr>isServer = False, useCSSOMInjection = False, target = None\<rparr> = Text (TextTag_new None)"
  using makeTag_priority [of "\<lparr>isServer = True, useCSSOMInjection = True, target = None\<rparr>"]
    makeTag_priority [of "\<lparr>isServer = True, useCSSOMInjection = False, target = None\<rparr>"]
    makeTag_priority [of "\<lparr>isServer = False, useCSSOMInjection = True, target = None\<rparr>"]
    makeTag_priority [of "\<lparr>isServer = False, useCSSOMInjection = False, target = None\<rparr>"]
  by simp

section \<open>Batches on the engine-backed tag\<close>

lemma CSSOMTag_insertRule_accepted:
  "0 \<le> k \<Longrightarrow> k \<le> int (length (cssRules (sheet t))) \<Longrightarrow> parse r = Some ob \<Longrightarrow>
   CSSOMTag_insertRule parse t k r =
     (t\<lparr>sheet := (sheet t)\<lparr>cssRules :=
          take (nat k) (cssRules (sheet t)) @ [ob] @ drop (nat k) (cssRules (sheet t))\<rparr>,
        length_CSSOM := length_CSSOM t + 1\<rparr>, True)"
  by (simp add: CSSOMTag_insertRule_def sheet_insertRule_def)

text \<open>
  The loop from a target index inside the sheet: a rejected rule leaves the index where
  it is, an accepted one goes in at the index and moves it up by one.
\<close>

lemma CSSOMTag_loop_in_range:
  "0 \<le> k \<Longrightarrow> k \<le> int (length (cssRules (sheet t))) \<Longrightarrow>
   CSSOMTag_insertRules_loop parse t n k rs =
     (let obs = map (the \<circ> parse) (filter (\<lambda>r. parse r \<noteq> None) rs)
      in (t\<lparr>sheet := (sheet t)\<lparr>cssRules :=
              take (nat k) (cssRules (sheet t)) @ obs @ drop (nat k) (cssRules (sheet t))\<rparr>,
            length_CSSOM := length_CSSOM t + int (length obs)\<rparr>,
          n + int (length obs)))"
proof (induction rs arbitrary: t n k)
  case Nil
  show ?case by simp
next
  case (Cons r rs)
  show ?case
  proof (cases "parse r")
    case None
    with Cons.prems have "CSSOMTag_insertRule parse t k r = (t, False)"
      by (simp add: CSSOMTag_insertRule_rejected)
    with None Cons.IH [OF Cons.prems, of n] show ?thesis by simp
  next
    case (Some ob)
    let ?old = "cssRules (sheet t)"
    let ?new = "take (nat k) ?old @ [ob] @ drop (nat k) ?old"
    let ?t' = "t\<lparr>sheet := (sheet t)\<lparr>cssRules := ?new\<rparr>, length_CSSOM := length_CSSOM t + 1\<rparr>"
    have step: "CSSOMTag_insertRule parse t k r = (?t', True)"
      using Cons.prems Some by (rule CSSOMTag_insertRule_accepted)
    have k: "nat k \<le> length ?old" "nat (k + 1) = Suc (nat k)" using Cons.prems by auto
    have rng: "0 \<le> k + 1" "k + 1 \<le> int (length (cssRules (sheet ?t')))"
      using Cons.prems by auto
    have tk: "take (nat (k + 1)) ?new = take (nat k) ?old @ [ob]"
      and dr: "drop (nat (k + 1)) ?new = drop (nat k) ?old"
      using k by (simp_all add: min_def)
    from Cons.IH [OF rng, of "n + 1"] step Some tk dr show ?thesis
      by (simp add: Let_def)
  qed
qed

lemma CSSOMTag_loop_out_of_range:
  "k < 0 \<or> int (length (cssRules (sheet t))) < k \<Longrightarrow>
   CSSOMTag_insertRules_loop parse t n k rs = (t, n)"
  by (induction rs arbitrary: n) (simp_all add: CSSOMTag_insertRule_rejected)

text \<open>
  C6. \<^verbatim>\<open>insertRules(s, rs)\<close> of the engine-backed tag inserts the rules of \<open>rs\<close> one by
  one, moving the target index up only after a success. From a start index inside the
  sheet, the rules the engine accepts end up at \<open>s\<close>, \<open>s + 1\<close>, ... in the order they have
  in \<open>rs\<close>, the rejected ones are skipped, and the number returned is the number of
  accepted rules, which the length grows by. From any other start index the engine
  rejects every insert: nothing changes and 0 is returned. The number returned is at
  most the number of rules in \<open>rs\<close>.
\<close>

theorem CSSOMTag_insertRules_accepted:
  "CSSOMTag_insertRules parse t s rs =
     (if 0 \<le> s \<and> s \<le> int (length (cssRules (sheet t)))
      then (let accepted = filter (\<lambda>r. parse r \<noteq> None) rs
            in (t\<lparr>sheet := (sheet t)\<lparr>cssRules :=
                    take (nat s) (cssRules (sheet t)) @ map (the \<circ> parse) accepted
                      @ drop (nat s) (cssRules (sheet t))\<rparr>,
                  length_CSSOM := length_CSSOM t + int (length accepted)\<rparr>,
                int (length accepted)))
      else (t, 0))
   \<and> snd (CSSOMTag_insertRules parse t s rs) \<le> int (length rs)"
proof (cases "0 \<le> s \<and> s \<le> int (length (cssRules (sheet t)))")
  case True
  then show ?thesis
    by (simp add: CSSOMTag_insertRules_def CSSOMTag_loop_in_range Let_def)
next
  case False
  then have "s < 0 \<or> int (length (cssRules (sheet t))) < s" by auto
  then have "CSSOMTag_insertRules parse t s rs = (t, 0)"
    by (simp add: CSSOMTag_insertRules_def CSSOMTag_loop_out_of_range)
  with False show ?thesis by (simp only: if_not_P snd_conv) simp
qed

theorem CSSOMTag_insertRules_accepted_witness:
  "CSSOMTag_insertRules example_engine
      \<lparr>sheet = \<lparr>cssRules = [CSSRule (Str ''a{}'')]\<rparr>, length_CSSOM = 1\<rparr> 0
      [''b{}'', ''not valid css'', ''c{}'']
    = (\<lparr>sheet = \<lparr>cssRules = [CSSRule (Str ''b{}''), CSSRule (Str ''c{}''), CSSRule (Str ''a{}'')]\<rparr>,
        length_CSSOM = 3\<rparr>, 2)"
  using CSSOMTag_insertRules_accepted
    [of example_engine "\<lparr>sheet = \<lparr>cssRules = [CSSRule (Str ''a{}'')]\<rparr>, length_CSSOM = 1\<rparr>" 0
      "[''b{}'', ''not valid css'', ''c{}'']"]
  by (simp add: example_engine_def)

section \<open>Reading back an inserted rule\<close>

lemma VirtualTag_insertRule_shift:
  assumes inv: "length_Virtual t = int (length (rules t))" and i: "0 \<le> i"
    and ok: "VirtualTag_insertRule t i r = (t', True)"
  shows "VirtualTag_getRule t' i = Str r"
    and "i < j \<Longrightarrow> j < length_Virtual t \<Longrightarrow> VirtualTag_getRule t' (j + 1) = VirtualTag_getRule t j"
proof -
  from ok have le: "i \<le> length_Virtual t"
    by (auto simp add: VirtualTag_insertRule_def split: if_splits)
  with inv i have k: "nat i \<le> length (rules t)" by simp
  from ok le inv i have t': "rules t' = take (nat i) (rules t) @ [r] @ drop (nat i) (rules t)"
    "length_Virtual t' = length_Virtual t + 1"
    by (auto simp add: VirtualTag_insertRule_def splice_insert_in_range)
  show "VirtualTag_getRule t' i = Str r"
    using t' le inv i nth_insert_at [OF k, of r]
    by (simp add: VirtualTag_getRule_def array_get_def)
  assume j: "i < j" "j < length_Virtual t"
  with i inv have "nat i < nat j" "nat j < length (rules t)" "nat (j + 1) = Suc (nat j)" by auto
  with nth_insert_after [of "nat i" "nat j" "rules t" r] t' j i inv
  show "VirtualTag_getRule t' (j + 1) = VirtualTag_getRule t j"
    by (simp add: VirtualTag_getRule_def array_get_def)
qed

lemma TextTag_insertRule_shift:
  assumes inv: "length_Text t = int (length (nodes t))" and i: "0 \<le> i"
    and ok: "TextTag_insertRule t i r = (t', True)"
  shows "TextTag_getRule t' i = Inr r"
    and "i < j \<Longrightarrow> j < length_Text t \<Longrightarrow> TextTag_getRule t' (j + 1) = TextTag_getRule t j"
proof -
  from ok have le: "i \<le> length_Text t"
    by (auto simp add: TextTag_insertRule_def split: if_splits)
  with inv i have k: "nat i \<le> length (nodes t)" by simp
  from ok le inv i have t': "nodes t' = take (nat i) (nodes t) @ [r] @ drop (nat i) (nodes t)"
    "length_Text t' = length_Text t + 1"
    by (auto simp add: TextTag_insertRule_def insertBefore_in_range Let_def)
  show "TextTag_getRule t' i = Inr r"
    using t' le inv i nth_insert_at [OF k, of r]
    by (simp add: TextTag_getRule_def item_def)
  assume j: "i < j" "j < length_Text t"
  with i inv have "nat i < nat j" "nat j < length (nodes t)" "nat (j + 1) = Suc (nat j)" by auto
  with nth_insert_after [of "nat i" "nat j" "nodes t" r] t' j i inv
  show "TextTag_getRule t' (j + 1) = TextTag_getRule t j"
    by (simp add: TextTag_getRule_def item_def)
qed

lemma CSSOMTag_insertRule_shift:
  assumes inv: "length_CSSOM t = int (length (cssRules (sheet t)))"
    and ok: "CSSOMTag_insertRule parse t i r = (t', True)"
  shows "CSSOMTag_getRule t' i = rule_text (the (parse r))"
    and "i < j \<Longrightarrow> j < length_CSSOM t \<Longrightarrow> CSSOMTag_getRule t' (j + 1) = CSSOMTag_getRule t j"
proof -
  from ok obtain ob where ob: "parse r = Some ob" and i: "0 \<le> i"
    and le: "i \<le> int (length (cssRules (sheet t)))"
    and t': "cssRules (sheet t') = take (nat i) (cssRules (sheet t)) @ [ob] @ drop (nat i) (cssRules (sheet t))"
    by (auto simp add: CSSOMTag_insertRule_def sheet_insertRule_def split: if_splits option.splits)
  from i le have k: "nat i \<le> length (cssRules (sheet t))" by simp
  show "CSSOMTag_getRule t' i = rule_text (the (parse r))"
    using t' le i ob nth_insert_at [OF k, of ob]
    by (simp add: CSSOMTag_getRule_def array_get_def rule_text_def)
  assume j: "i < j" "j < length_CSSOM t"
  with i inv have "nat i < nat j" "nat j < length (cssRules (sheet t))" "nat (j + 1) = Suc (nat j)"
    by auto
  with nth_insert_after [of "nat i" "nat j" "cssRules (sheet t)" ob] t' j i inv
  show "CSSOMTag_getRule t' (j + 1) = CSSOMTag_getRule t j"
    by (simp add: CSSOMTag_getRule_def array_get_def)
qed

text \<open>
  C3, as amended. On a tag of any backend whose length is the size of its store, for
  every index \<open>i \<ge> 0\<close> and every rule \<open>r\<close>: if \<^verbatim>\<open>insertRule(i, r)\<close> returns true, then
  right afterwards \<^verbatim>\<open>getRule(i)\<close> returns \<open>r\<close> on the node-backed and the list-backed
  tag, and on the engine-backed tag the text the engine gives the rule it built from
  \<open>r\<close> (empty when that text is not a string); and for every \<open>j > i\<close> that was below the
  length before the call, \<^verbatim>\<open>getRule(j + 1)\<close> now returns what \<^verbatim>\<open>getRule(j)\<close> returned
  before.
\<close>

theorem Tag_insertRule_readable:
  assumes "Tag_length tg = int (length (Tag_store tg))" and "0 \<le> i"
    and "Tag_insertRule parse tg i r = (tg', True)"
  shows "Tag_getRule tg' i
           = Inr (Str (case tg of CSSOM _ \<Rightarrow> rule_text (the (parse r)) | _ \<Rightarrow> r))
     \<and> (\<forall>j. i < j \<and> j < Tag_length tg \<longrightarrow> Tag_getRule tg' (j + 1) = Tag_getRule tg j)"
proof (cases tg)
  case (CSSOM t)
  with assms obtain t' where "tg' = CSSOM t'" "CSSOMTag_insertRule parse t i r = (t', True)"
    by (cases "CSSOMTag_insertRule parse t i r") auto
  with CSSOM assms CSSOMTag_insertRule_shift [of t parse i r t'] show ?thesis by simp
next
  case (Text t)
  with assms obtain t' where "tg' = Text t'" "TextTag_insertRule t i r = (t', True)"
    by (cases "TextTag_insertRule t i r") auto
  with Text assms TextTag_insertRule_shift [of t i r t'] show ?thesis by simp
next
  case (Virtual t)
  with assms obtain t' where "tg' = Virtual t'" "VirtualTag_insertRule t i r = (t', True)"
    by (cases "VirtualTag_insertRule t i r") auto
  with Virtual assms VirtualTag_insertRule_shift [of t i r t'] show ?thesis by simp
qed

theorem Tag_insertRule_readable_witness:
  "Tag_insertRule example_engine (Text \<lparr>nodes = [''a{}'', ''b{}''], length_Text = 2\<rparr>) 0 ''c{}''
     = (Text \<lparr>nodes = [''c{}'', ''a{}'', ''b{}''], length_Text = 3\<rparr>, True)
   \<and> Tag_getRule (Text \<lparr>nodes = [''c{}'', ''a{}'', ''b{}''], length_Text = 3\<rparr>) 0 = Inr (Str ''c{}'')
   \<and> Tag_getRule (Text \<lparr>nodes = [''c{}'', ''a{}'', ''b{}''], length_Text = 3\<rparr>) 2
       = Tag_getRule (Text \<lparr>nodes = [''a{}'', ''b{}''], length_Text = 2\<rparr>) 1
   \<and> Tag_getRule (Text \<lparr>nodes = [''a{}'', ''b{}''], length_Text = 2\<rparr>) 1 = Inr (Str ''b{}'')"
proof -
  let ?t = "Text \<lparr>nodes = [''a{}'', ''b{}''], length_Text = 2\<rparr>"
  let ?t' = "Text \<lparr>nodes = [''c{}'', ''a{}'', ''b{}''], length_Text = 3\<rparr>"
  have inv: "Tag_length ?t = int (length (Tag_store ?t))" by simp
  have ok: "Tag_insertRule example_engine ?t 0 ''c{}'' = (?t', True)"
    by (simp add: TextTag_insertRule_def item_def insertBefore_def)
  have "(0::int) \<le> 0" by simp
  note readable = Tag_insertRule_readable [OF inv this ok]
  from readable have "Tag_getRule ?t' 0 = Inr (Str ''c{}'')"
    by simp
  moreover from readable
  have shift: "\<forall>j. 0 < j \<and> j < Tag_length ?t \<longrightarrow> Tag_getRule ?t' (j + 1) = Tag_getRule ?t j"
    by (rule conjunct2)
  have "Tag_getRule ?t' 2 = Tag_getRule ?t 1"
    using shift [rule_format, of 1] by simp
  moreover have "Tag_getRule ?t 1 = Inr (Str ''b{}'')"
    by (simp add: TextTag_getRule_def item_def)
  ultimately show ?thesis using ok by simp
qed

text \<open>
  C3 as it is written fails in two places. On a fresh list-backed tag
  \<^verbatim>\<open>insertRule(-1, "a{color:red}")\<close> returns true, and \<^verbatim>\<open>getRule(-1)\<close> does not return
  the rule. On a fresh engine-backed tag \<^verbatim>\<open>insertRule(0, "a{color:red}")\<close> returns true,
  and \<^verbatim>\<open>getRule(0)\<close> returns the text the engine serialises the rule to, which is
  not the text inserted.
\<close>

theorem Tag_insertRule_readable_counterexample:
  "snd (Tag_insertRule example_engine (Virtual (VirtualTag_new None)) (- 1) ''a{color:red}'')
   \<and> Tag_getRule (fst (Tag_insertRule example_engine (Virtual (VirtualTag_new None)) (- 1)
         ''a{color:red}'')) (- 1)
       \<noteq> Inr (Str ''a{color:red}'')
   \<and> snd (Tag_insertRule example_engine (CSSOM (CSSOMTag_new None)) 0 ''a{color:red}'')
   \<and> Tag_getRule (fst (Tag_insertRule example_engine (CSSOM (CSSOMTag_new None)) 0
         ''a{color:red}'')) 0
       \<noteq> Inr (Str ''a{color:red}'')"
  by (simp add: VirtualTag_new_def VirtualTag_insertRule_def VirtualTag_getRule_def splice_def
      array_get_def CSSOMTag_new_def CSSOMTag_insertRule_def sheet_insertRule_def
      CSSOMTag_getRule_def example_engine_def)

section \<open>The length counter along a sequence of calls\<close>

text \<open>What one call does to the counter and to the size of the store.\<close>

lemma VirtualTag_insertRule_sizes:
  "VirtualTag_insertRule t i r = (t', ok) \<Longrightarrow>
   length_Virtual t' = length_Virtual t + (if ok then 1 else 0)
   \<and> int (length (rules t')) = int (length (rules t)) + (if ok then 1 else 0)"
  by (auto simp add: VirtualTag_insertRule_def length_splice_insert split: if_splits)

lemma TextTag_insertRule_sizes:
  "TextTag_insertRule t i r = (t', ok) \<Longrightarrow>
   length_Text t' = length_Text t + (if ok then 1 else 0)
   \<and> int (length (nodes t')) = int (length (nodes t)) + (if ok then 1 else 0)"
  by (auto simp add: TextTag_insertRule_def length_insertBefore Let_def split: if_splits)

lemma CSSOMTag_insertRule_sizes:
  "CSSOMTag_insertRule parse t i r = (t', ok) \<Longrightarrow>
   length_CSSOM t' = length_CSSOM t + (if ok then 1 else 0)
   \<and> int (length (cssRules (sheet t'))) = int (length (cssRules (sheet t))) + (if ok then 1 else 0)"
  by (auto simp add: CSSOMTag_insertRule_def sheet_insertRule_def
      split: if_splits option.splits)

lemma VirtualTag_loop_sizes:
  "VirtualTag_insertRules_loop t n k rs = (t', n') \<Longrightarrow>
   length_Virtual t' - length_Virtual t = n' - n
   \<and> int (length (rules t')) - int (length (rules t)) = n' - n"
proof (induction rs arbitrary: t n k)
  case Nil
  then show ?case by simp
next
  case (Cons r rs)
  obtain t1 ok where step: "VirtualTag_insertRule t k r = (t1, ok)"
    by (cases "VirtualTag_insertRule t k r")
  from Cons.prems step
  have "VirtualTag_insertRules_loop t1 (n + (if ok then 1 else 0)) (k + (if ok then 1 else 0)) rs
          = (t', n')"
    by (simp split: if_splits)
  from Cons.IH [OF this] VirtualTag_insertRule_sizes [OF step] show ?case
    by (simp split: if_splits)
qed

lemma CSSOMTag_loop_sizes:
  "CSSOMTag_insertRules_loop parse t n k rs = (t', n') \<Longrightarrow>
   length_CSSOM t' - length_CSSOM t = n' - n
   \<and> int (length (cssRules (sheet t'))) - int (length (cssRules (sheet t))) = n' - n"
proof (induction rs arbitrary: t n k)
  case Nil
  then show ?case by simp
next
  case (Cons r rs)
  obtain t1 ok where step: "CSSOMTag_insertRule parse t k r = (t1, ok)"
    by (cases "CSSOMTag_insertRule parse t k r")
  from Cons.prems step
  have "CSSOMTag_insertRules_loop parse t1 (n + (if ok then 1 else 0)) (k + (if ok then 1 else 0)) rs
          = (t', n')"
    by (simp split: if_splits)
  from Cons.IH [OF this] CSSOMTag_insertRule_sizes [OF step] show ?case
    by (simp split: if_splits)
qed

lemma Tag_insertRule_sizes:
  "Tag_insertRule parse t i r = (t', ok) \<Longrightarrow>
   Tag_length t' = Tag_length t + (if ok then 1 else 0)
   \<and> int (length (Tag_store t')) = int (length (Tag_store t)) + (if ok then 1 else 0)"
proof (cases t)
  case (CSSOM c)
  assume "Tag_insertRule parse t i r = (t', ok)"
  with CSSOM obtain c' where "t' = CSSOM c'" "CSSOMTag_insertRule parse c i r = (c', ok)"
    by (cases "CSSOMTag_insertRule parse c i r") auto
  with CSSOM CSSOMTag_insertRule_sizes [of parse c i r c' ok] show ?thesis by simp
next
  case (Text c)
  assume "Tag_insertRule parse t i r = (t', ok)"
  with Text obtain c' where "t' = Text c'" "TextTag_insertRule c i r = (c', ok)"
    by (cases "TextTag_insertRule c i r") auto
  with Text TextTag_insertRule_sizes [of c i r c' ok] show ?thesis by simp
next
  case (Virtual c)
  assume "Tag_insertRule parse t i r = (t', ok)"
  with Virtual obtain c' where "t' = Virtual c'" "VirtualTag_insertRule c i r = (c', ok)"
    by (cases "VirtualTag_insertRule c i r") auto
  with Virtual VirtualTag_insertRule_sizes [of c i r c' ok] show ?thesis by simp
qed

lemma Tag_insertRules_sizes:
  "Tag_insertRules parse t s rs = (t', n) \<Longrightarrow>
   Tag_length t' = Tag_length t + n
   \<and> int (length (Tag_store t')) = int (length (Tag_store t)) + n"
proof (cases t)
  case (CSSOM c)
  assume "Tag_insertRules parse t s rs = (t', n)"
  with CSSOM obtain c' where "t' = CSSOM c'" "CSSOMTag_insertRules_loop parse c 0 s rs = (c', n)"
    by (cases "CSSOMTag_insertRules parse c s rs") (auto simp add: CSSOMTag_insertRules_def)
  with CSSOM CSSOMTag_loop_sizes [of parse c 0 s rs c' n] show ?thesis by simp
next
  case (Text c)
  assume "Tag_insertRules parse t s rs = (t', n)"
  with Text show ?thesis
    by (auto simp add: TextTag_insertRules_def fragment_loop_Nil length_insertBefore Let_def)
next
  case (Virtual c)
  assume "Tag_insertRules parse t s rs = (t', n)"
  with Virtual obtain c' where "t' = Virtual c'" "VirtualTag_insertRules_loop c 0 s rs = (c', n)"
    by (cases "VirtualTag_insertRules c s rs") (auto simp add: VirtualTag_insertRules_def)
  with Virtual VirtualTag_loop_sizes [of c 0 s rs c' n] show ?thesis by simp
qed

text \<open>A delete inside the range is carried out, on every backend.\<close>

lemma Tag_deleteRule_sizes:
  assumes "Tag_length t = int (length (Tag_store t))" and "0 \<le> i" and "i < Tag_length t"
  shows "\<exists>t'. Tag_deleteRule t i = Inr t' \<and> Tag_length t' = Tag_length t - 1
     \<and> int (length (Tag_store t')) = int (length (Tag_store t)) - 1"
proof (cases t)
  case (CSSOM c)
  with assms show ?thesis
    by (auto simp add: CSSOMTag_deleteRule_def sheet_deleteRule_def)
next
  case (Text c)
  with assms show ?thesis
    by (auto simp add: TextTag_deleteRule_def item_def removeChild_def)
next
  case (Virtual c)
  with assms length_splice_delete [of i "rules c"] show ?thesis
    by (auto simp add: VirtualTag_deleteRule_def)
qed

lemma perform_in_step:
  assumes "in_step st"
    and "case c of DeleteRule index \<Rightarrow> 0 \<le> index \<and> index < Tag_length (current st) | _ \<Rightarrow> True"
  shows "in_step (perform parse st c)"
proof (cases c)
  case (InsertRule i r)
  obtain t' ok where "Tag_insertRule parse (current st) i r = (t', ok)"
    by (cases "Tag_insertRule parse (current st) i r")
  with InsertRule assms(1) Tag_insertRule_sizes [of parse "current st" i r t' ok] show ?thesis
    by (simp add: in_step_def)
next
  case (InsertRules s rs)
  obtain t' n where "Tag_insertRules parse (current st) s rs = (t', n)"
    by (cases "Tag_insertRules parse (current st) s rs")
  with InsertRules assms(1) Tag_insertRules_sizes [of parse "current st" s rs t' n] show ?thesis
    by (simp add: in_step_def)
next
  case (DeleteRule i)
  with assms Tag_deleteRule_sizes [of "current st" i] show ?thesis
    by (auto simp add: in_step_def)
next
  case (GetRule i)
  with assms(1) show ?thesis by simp
qed

lemma foldl_in_step:
  "in_step st \<Longrightarrow> deletes_in_range parse st cs \<Longrightarrow> in_step (foldl (perform parse) st cs)"
proof (induction cs arbitrary: st)
  case Nil
  then show ?case by simp
next
  case (Cons c cs)
  from Cons.prems have "in_step (perform parse st c)" by (simp add: perform_in_step)
  with Cons.prems Cons.IH [of "perform parse st c"] show ?case by simp
qed

text \<open>A delete issued inside the range is carried out, so the tally counts every one.\<close>

lemma perform_deleted:
  assumes "in_step st"
    and "case c of DeleteRule index \<Rightarrow> 0 \<le> index \<and> index < Tag_length (current st) | _ \<Rightarrow> True"
  shows "deleted (perform parse st c) = deleted st + (case c of DeleteRule index \<Rightarrow> 1 | _ \<Rightarrow> 0)"
proof (cases c)
  case (InsertRule i r)
  then show ?thesis by (simp split: prod.split)
next
  case (InsertRules s rs)
  then show ?thesis by (simp split: prod.split)
next
  case (DeleteRule i)
  with assms Tag_deleteRule_sizes [of "current st" i] show ?thesis
    by (auto simp add: in_step_def)
next
  case (GetRule i)
  then show ?thesis by simp
qed

lemma foldl_deleted:
  "in_step st \<Longrightarrow> deletes_in_range parse st cs \<Longrightarrow>
   deleted (foldl (perform parse) st cs) = deleted st + deletes_issued cs"
proof (induction cs arbitrary: st)
  case Nil
  then show ?case by simp
next
  case (Cons c cs)
  from Cons.prems have step: "in_step (perform parse st c)" by (simp add: perform_in_step)
  from Cons.prems have "deleted (perform parse st c)
      = deleted st + (case c of DeleteRule index \<Rightarrow> 1 | _ \<Rightarrow> 0)"
    by (simp add: perform_deleted)
  with Cons.prems Cons.IH [OF step] show ?case by simp
qed

lemma deletes_in_range_take:
  "deletes_in_range parse st cs \<Longrightarrow> deletes_in_range parse st (take k cs)"
proof (induction cs arbitrary: st k)
  case Nil
  then show ?case by simp
next
  case (Cons c cs)
  then show ?case by (cases k) simp_all
qed

lemma in_step_fresh: "in_step (fresh opts)"
  by (simp add: in_step_def fresh_def makeTag_def VirtualTag_new_def CSSOMTag_new_def
      TextTag_new_def)

lemma Tag_getRule_in_step:
  assumes "Tag_length t = int (length (Tag_store t))" and "0 \<le> i"
  shows "Tag_getRule t i = Inr (Str (if i < Tag_length t then Tag_store t ! nat i else []))"
proof (cases t)
  case (CSSOM c)
  with assms show ?thesis
    by (simp add: CSSOMTag_getRule_def array_get_def rule_text_def)
next
  case (Text c)
  with assms show ?thesis
    by (simp add: TextTag_getRule_def item_def)
next
  case (Virtual c)
  with assms show ?thesis
    by (simp add: VirtualTag_getRule_def array_get_def)
qed

text \<open>
  C5. Take a fresh tag of any backend and any sequence of calls in which every delete
  is issued inside the range from 0 to the length. After the first \<open>k\<close> calls, for every
  \<open>k\<close>, the length is the number of inserts that reported success minus the number of
  deletes carried out; every delete issued among those calls has been carried out, so
  that number is the number of \<^verbatim>\<open>deleteRule\<close> calls; and the length is the number of
  rules in the store: \<^verbatim>\<open>getRule\<close> returns the stored text at each index from 0 below the
  length, and the empty string at each index from the length on. A further delete at
  any index from 0 below the length returns, and leaves the length one less.
\<close>

theorem Tag_length_tally:
  assumes "deletes_in_range parse (fresh opts) cs"
    and "st = foldl (perform parse) (fresh opts) (take k cs)"
  shows "Tag_length (current st) = inserted st - deleted st
     \<and> deleted st = deletes_issued (take k cs)
     \<and> Tag_length (current st) = int (length (Tag_store (current st)))
     \<and> (\<forall>i\<ge>0. Tag_getRule (current st) i
           = Inr (Str (if i < Tag_length (current st) then Tag_store (current st) ! nat i else [])))
     \<and> (\<forall>i. 0 \<le> i \<and> i < Tag_length (current st) \<longrightarrow>
           (\<exists>t. Tag_deleteRule (current st) i = Inr t
                \<and> Tag_length t = Tag_length (current st) - 1))"
proof -
  from assms(1) have ok: "deletes_in_range parse (fresh opts) (take k cs)"
    by (rule deletes_in_range_take)
  with assms(2) have step: "in_step st"
    by (simp add: foldl_in_step in_step_fresh)
  from ok assms(2) have "deleted st = deleted (fresh opts) + deletes_issued (take k cs)"
    by (simp add: foldl_deleted in_step_fresh)
  then have del: "deleted st = deletes_issued (take k cs)"
    by (simp add: fresh_def)
  from step have inv: "Tag_length (current st) = int (length (Tag_store (current st)))"
    by (simp add: in_step_def)
  have carried: "\<forall>i. 0 \<le> i \<and> i < Tag_length (current st) \<longrightarrow>
           (\<exists>t. Tag_deleteRule (current st) i = Inr t
                \<and> Tag_length t = Tag_length (current st) - 1)"
    using Tag_deleteRule_sizes [OF inv] by blast
  from step del carried show ?thesis
    by (simp add: in_step_def Tag_getRule_in_step)
qed

theorem Tag_length_tally_witness:
  "deletes_in_range example_engine
      (fresh \<lparr>isServer = False, useCSSOMInjection = True, target = None\<rparr>)
      [InsertRule 0 ''a{}'', InsertRule 0 ''not valid css'',
       InsertRules 1 [''b{}'', ''not valid css'', ''c{}''], DeleteRule 0, GetRule 5]
   \<and> foldl (perform example_engine)
        (fresh \<lparr>isServer = False, useCSSOMInjection = True, target = None\<rparr>)
        [InsertRule 0 ''a{}'', InsertRule 0 ''not valid css'',
         InsertRules 1 [''b{}'', ''not valid css'', ''c{}''], DeleteRule 0, GetRule 5]
      = \<lparr>current = CSSOM \<lparr>sheet = \<lparr>cssRules = [CSSRule (Str ''b{}''), CSSRule (Str ''c{}'')]\<rparr>,
                              length_CSSOM = 2\<rparr>,
         inserted = 3, deleted = 1\<rparr>
   \<and> deletes_issued [InsertRule 0 ''a{}'', InsertRule 0 ''not valid css'',
         InsertRules 1 [''b{}'', ''not valid css'', ''c{}''], DeleteRule 0, GetRule 5] = 1"
proof -
  let ?opts = "\<lparr>isServer = False, useCSSOMInjection = True, target = None\<rparr>"
  let ?cs = "[InsertRule 0 ''a{}'', InsertRule 0 ''not valid css'',
       InsertRules 1 [''b{}'', ''not valid css'', ''c{}''], DeleteRule 0, GetRule 5]"
  let ?end = "\<lparr>current = CSSOM \<lparr>sheet = \<lparr>cssRules = [CSSRule (Str ''b{}''), CSSRule (Str ''c{}'')]\<rparr>,
                              length_CSSOM = 2\<rparr>,
         inserted = 3, deleted = 1\<rparr>"
  have run: "foldl (perform example_engine) (fresh ?opts) ?cs = ?end"
    by (simp add: fresh_def makeTag_def CSSOMTag_new_def CSSOMTag_insertRule_def
        CSSOMTag_insertRules_def CSSOMTag_deleteRule_def sheet_insertRule_def
        sheet_deleteRule_def example_engine_def)
  have ok: "deletes_in_range example_engine (fresh ?opts) ?cs"
    by (simp add: fresh_def makeTag_def CSSOMTag_new_def CSSOMTag_insertRule_def
        CSSOMTag_insertRules_def CSSOMTag_deleteRule_def sheet_insertRule_def
        sheet_deleteRule_def example_engine_def)
  have "?end = foldl (perform example_engine) (fresh ?opts) (take 5 ?cs)"
    using run by simp
  from Tag_length_tally [OF ok this]
  have "deleted ?end = deletes_issued (take 5 ?cs)" by blast
  then have "deletes_issued ?cs = 1" by simp
  with ok run show ?thesis by simp
qed

end
